theory Spec2Isabelle
  imports Main "HOL-Library.Multiset"
begin

section \<open>Data model of the table widget (DataTable.tsx)\<close>

text \<open>
  A property key as it exists at run time: \<open>keyof T\<close> admits string keys and numeric
  keys (a record type such as \<open>{ 0: number }\<close>, an array or a tuple), and the
  component compares keys with \<open>===\<close>, which keeps the string \<open>"0"\<close> and the number
  \<open>0\<close> apart. Numeric keys are modelled by the integers.
\<close>

datatype pkey = StrKey string | NumKey int

text \<open>
  JavaScript truthiness of a key, as used by \<open>!sortKey\<close>: the empty string and the
  number zero are falsy, every other key is truthy.
\<close>

fun truthy_key :: "pkey \<Rightarrow> bool" where
  "truthy_key (StrKey s) = (s \<noteq> [])"
| "truthy_key (NumKey n) = (n \<noteq> 0)"

text \<open>
  A record \<open>T\<close> is an object read only through \<open>row[key]\<close>: a function from property
  keys to values of a generic value type \<open>'v\<close> (primitive values).
\<close>

type_synonym 'v row = "pkey \<Rightarrow> 'v"

text \<open>\<open>type SortOrder = 'asc' | 'desc' | null\<close>: the two directions; \<open>null\<close> is \<open>None\<close>.\<close>

datatype SortOrder = asc | desc

text \<open>\<open>interface Column<T>\<close>; the optional custom renderer only produces markup.\<close>

record column =
  key :: string
  title :: string
  dataIndex :: pkey
  sortable :: bool

text \<open>
  \<open>interface DataTableProps<T>\<close>, after the defaults of the parameter list are applied.
  The host's callback \<open>onRowSelect\<close> is optional: the field records whether it was
  supplied, and every handler returns the list of payloads it was invoked with.
\<close>

record 'v props =
  data :: "'v row list"
  columns :: "column list"
  loading :: bool
  selectable :: bool
  onRowSelect :: bool
  rowKey :: pkey

text \<open>The three \<open>useState\<close> cells of one component instance.\<close>

record 'v table_state =
  sortKey :: "pkey option"
  sortOrder :: "SortOrder option"
  selectedRows :: "'v row list"

definition initial_state :: "'v table_state" where
  "initial_state = \<lparr>sortKey = None, sortOrder = None, selectedRows = []\<rparr>"

section \<open>Sorting state\<close>

definition handleSort :: "pkey \<Rightarrow> 'v table_state \<Rightarrow> 'v table_state" where
  "handleSort k st =
     (if sortKey st = Some k
      then st\<lparr>sortOrder := (if sortOrder st = Some asc then Some desc else Some asc)\<rparr>
      else st\<lparr>sortKey := Some k, sortOrder := Some asc\<rparr>)"

text \<open>
  The header cell of a column: the button that calls \<open>handleSort(col.dataIndex)\<close> is
  rendered only when \<open>col.sortable\<close> holds; otherwise the title is plain text and a
  click changes nothing.
\<close>

definition clickHeader :: "column \<Rightarrow> 'v table_state \<Rightarrow> 'v table_state" where
  "clickHeader col st = (if sortable col then handleSort (dataIndex col) st else st)"


section \<open>Display state\<close>

datatype display = LoadingState | TableBody | EmptyState

definition displayState :: "'v props \<Rightarrow> display" where
  "displayState p =
     (if loading p then LoadingState
      else if length (data p) > 0 then TableBody
      else EmptyState)"

section \<open>Sorting the displayed rows\<close>

text \<open>
  The comparator handed to \<open>sort\<close>. The generic comparison \<open>valA < valB\<close> of the value
  type is the parameter \<open>lt\<close>; \<open>valA > valB\<close> is the same comparison with the operands
  exchanged. The result is the comparator's number: negative, positive or zero.
\<close>

definition compareRows ::
  "('v \<Rightarrow> 'v \<Rightarrow> bool) \<Rightarrow> pkey \<Rightarrow> SortOrder \<Rightarrow> 'v row \<Rightarrow> 'v row \<Rightarrow> int" where
  "compareRows lt k ord a b =
     (let valA = a k; valB = b k in
      if lt valA valB then (if ord = asc then - 1 else 1)
      else if lt valB valA then (if ord = asc then 1 else - 1)
      else 0)"

text \<open>
  \<open>Array.prototype.sort\<close> is a builtin of the language, not code of the repository.
  ECMAScript (2019 and later) requires it to be stable; it is modelled by the stable
  insertion sort: an element moves behind a neighbour only when the comparator says it is
  strictly greater (\<open>cmp x y > 0\<close>). The elements of \<open>data\<close> are objects, so the
  builtin's special treatment of \<open>undefined\<close> elements and holes does not arise.
\<close>

fun sort_insert :: "('a \<Rightarrow> 'a \<Rightarrow> int) \<Rightarrow> 'a \<Rightarrow> 'a list \<Rightarrow> 'a list" where
  "sort_insert cmp x [] = [x]"
| "sort_insert cmp x (y # ys) =
     (if cmp x y > 0 then y # sort_insert cmp x ys else x # y # ys)"

definition array_sort :: "('a \<Rightarrow> 'a \<Rightarrow> int) \<Rightarrow> 'a list \<Rightarrow> 'a list" where
  "array_sort cmp xs = foldr (sort_insert cmp) xs []"

text \<open>
  The memoised \<open>sortedData\<close>: \<open>if (!sortKey || !sortOrder) return data\<close>, otherwise the
  sorted copy. \<open>!sortKey\<close> holds for \<open>null\<close> and for a falsy key.
\<close>

definition sortedData :: "('v \<Rightarrow> 'v \<Rightarrow> bool) \<Rightarrow> 'v props \<Rightarrow> 'v table_state \<Rightarrow> 'v row list" where
  "sortedData lt p st =
     (case sortKey st of
        None \<Rightarrow> data p
      | Some k \<Rightarrow>
          (case sortOrder st of
             None \<Rightarrow> data p
           | Some ord \<Rightarrow>
               if \<not> truthy_key k then data p
               else array_sort (compareRows lt k ord) (data p)))"

text \<open>
  What the header shows for a column: the ascending chevron exactly when
  \<open>sortKey === col.dataIndex\<close> and \<open>sortOrder === 'asc'\<close>.
\<close>

datatype chevron = ChevronUp | ChevronDown | ChevronInactive

definition headerIcon :: "column \<Rightarrow> 'v table_state \<Rightarrow> chevron" where
  "headerIcon col st =
     (if sortKey st = Some (dataIndex col)
      then (if sortOrder st = Some asc then ChevronUp else ChevronDown)
      else ChevronInactive)"

section \<open>Row selection\<close>

text \<open>
  The strict equality \<open>===\<close> on primitive values: two values are strictly equal when
  they are the same value and that value is not NaN; NaN is strictly equal to nothing,
  itself included. Which values of the value type are NaN is the parameter \<open>isNaN\<close>.
  (The two zeros of JavaScript, which are strictly equal, are one value here.)
\<close>

definition strict_eq :: "('v \<Rightarrow> bool) \<Rightarrow> 'v \<Rightarrow> 'v \<Rightarrow> bool" where
  "strict_eq isNaN a b = (a = b \<and> \<not> isNaN a)"

text \<open>\<open>selectedRows.some((r) => r[rowKey] === row[rowKey])\<close>, the test of the row's checkbox.\<close>

definition isRowSelected :: "('v \<Rightarrow> bool) \<Rightarrow> pkey \<Rightarrow> 'v row list \<Rightarrow> 'v row \<Rightarrow> bool" where
  "isRowSelected isNaN rk sel row = list_ex (\<lambda>r. strict_eq isNaN (r rk) (row rk)) sel"

text \<open>
  \<open>if (onRowSelect) onRowSelect(newSelection)\<close>: the payloads the host receives. The
  call sits inside the state updater, which runs once for an activation here; a
  development build in strict mode runs the updater a second time on the same previous
  state, which repeats the same payload.
\<close>

definition notify :: "'v props \<Rightarrow> 'v row list \<Rightarrow> 'v row list list" where
  "notify p newSelection = (if onRowSelect p then [newSelection] else [])"

definition handleSelectRow ::
  "('v \<Rightarrow> bool) \<Rightarrow> 'v props \<Rightarrow> 'v row \<Rightarrow> 'v table_state
     \<Rightarrow> 'v table_state \<times> 'v row list list" where
  "handleSelectRow isNaN p row st =
     (let prev = selectedRows st;
          isSelected = list_ex (\<lambda>r. strict_eq isNaN (r (rowKey p)) (row (rowKey p))) prev;
          newSelection =
            (if isSelected
             then filter (\<lambda>r. \<not> strict_eq isNaN (r (rowKey p)) (row (rowKey p))) prev
             else prev @ [row])
      in (st\<lparr>selectedRows := newSelection\<rparr>, notify p newSelection))"

definition handleSelectAll ::
  "'v props \<Rightarrow> 'v table_state \<Rightarrow> 'v table_state \<times> 'v row list list" where
  "handleSelectAll p st =
     (let prev = selectedRows st;
          newSelection = (if length prev = length (data p) then [] else data p)
      in (st\<lparr>selectedRows := newSelection\<rparr>, notify p newSelection))"

definition isAllSelected :: "'v props \<Rightarrow> 'v table_state \<Rightarrow> bool" where
  "isAllSelected p st =
     (length (data p) > 0 \<and> length (selectedRows st) = length (data p))"

definition isIndeterminate :: "'v props \<Rightarrow> 'v table_state \<Rightarrow> bool" where
  "isIndeterminate p st =
     (length (selectedRows st) > 0 \<and> length (selectedRows st) < length (data p))"

text \<open>
  The select-all control activated \<open>n\<close> times in a row, the props unchanged; the
  payloads of all callback invocations are collected in order.
\<close>

fun selectAllTimes ::
  "nat \<Rightarrow> 'v props \<Rightarrow> 'v table_state \<Rightarrow> 'v table_state \<times> 'v row list list" where
  "selectAllTimes 0 p st = (st, [])"
| "selectAllTimes (Suc n) p st =
     (let (st1, out1) = handleSelectAll p st;
          (st2, out2) = selectAllTimes n p st1
      in (st2, out1 @ out2))"

section \<open>Arrays in a store: what the table writes\<close>

text \<open>
  To see which arrays the component writes, arrays live in a store and are named by
  their address: the store is the list of all arrays allocated so far, a reference is an
  index into it. A spread \<open>[...xs]\<close>, a \<open>filter\<close> and an array literal allocate a fresh
  array at the end of the store; \<open>sort\<close> overwrites the array it is called on. A
  reference held by the program is always allocated. Records are values inside the
  arrays: no handler assigns to a field of a record.
\<close>

type_synonym addr = nat
type_synonym 'v store = "'v row list list"

definition new_array :: "'v row list \<Rightarrow> 'v store \<Rightarrow> addr \<times> 'v store" where
  "new_array xs h = (length h, h @ [xs])"

definition sort_in_place :: "('v row \<Rightarrow> 'v row \<Rightarrow> int) \<Rightarrow> addr \<Rightarrow> 'v store \<Rightarrow> 'v store" where
  "sort_in_place cmp a h = h[a := array_sort cmp (h ! a)]"

text \<open>
  \<open>sortedData\<close> with the host's array at \<open>dataRef\<close>: the early return hands back the
  host's array itself; otherwise \<open>const sorted = [...data].sort(...)\<close> copies and sorts
  the copy in place.
\<close>

definition sortedData_store ::
  "('v \<Rightarrow> 'v \<Rightarrow> bool) \<Rightarrow> addr \<Rightarrow> pkey option \<Rightarrow> SortOrder option \<Rightarrow> 'v store
     \<Rightarrow> addr \<times> 'v store" where
  "sortedData_store lt dataRef sk so h =
     (case sk of
        None \<Rightarrow> (dataRef, h)
      | Some k \<Rightarrow>
          (case so of
             None \<Rightarrow> (dataRef, h)
           | Some ord \<Rightarrow>
               if \<not> truthy_key k then (dataRef, h)
               else
                 (let (sorted, h1) = new_array (h ! dataRef) h
                  in (sorted, sort_in_place (compareRows lt k ord) sorted h1))))"

text \<open>
  The two selection handlers with the previous selection at \<open>prevRef\<close>: each returns the
  reference of the new selection, a fresh array in every branch.
\<close>

definition handleSelectRow_store ::
  "('v \<Rightarrow> bool) \<Rightarrow> pkey \<Rightarrow> 'v row \<Rightarrow> addr \<Rightarrow> 'v store \<Rightarrow> addr \<times> 'v store" where
  "handleSelectRow_store isNaN rk row prevRef h =
     (let prev = h ! prevRef;
          isSelected = list_ex (\<lambda>r. strict_eq isNaN (r rk) (row rk)) prev
      in if isSelected then new_array (filter (\<lambda>r. \<not> strict_eq isNaN (r rk) (row rk)) prev) h
         else new_array (prev @ [row]) h)"

definition handleSelectAll_store :: "addr \<Rightarrow> addr \<Rightarrow> 'v store \<Rightarrow> addr \<times> 'v store" where
  "handleSelectAll_store dataRef prevRef h =
     (if length (h ! prevRef) = length (h ! dataRef) then new_array [] h
      else new_array (h ! dataRef) h)"

section \<open>The field widget (InputField)\<close>

text \<open>
  The props of \<open>InputField\<close> after the defaults of the parameter list (\<open>type = 'text'\<close>,
  the flags \<open>false\<close>). The props \<open>type\<close>, \<open>value\<close> and \<open>loading\<close> are the fields
  \<open>inputType\<close>, \<open>fieldValue\<close> and \<open>fieldLoading\<close>; an optional string prop that was not
  passed is \<open>None\<close>; \<open>onClear\<close> records whether the callback was passed. The remaining
  props are destructured before the rest is spread onto the input, so the spread cannot
  override \<open>type\<close>, \<open>disabled\<close> or \<open>value\<close>.
\<close>

record field_props =
  inputType :: string
  fieldValue :: "string option"
  label :: "string option"
  placeholder :: "string option"
  helperText :: "string option"
  errorMessage :: "string option"
  disabled :: bool
  invalid :: bool
  fieldLoading :: bool
  onClear :: bool

text \<open>The one \<open>useState\<close> cell: \<open>const [showPassword, setShowPassword] = useState(false)\<close>.\<close>

record field_state =
  showPassword :: bool

definition initial_field :: field_state where
  "initial_field = \<lparr>showPassword = False\<rparr>"

text \<open>
  JavaScript truthiness of an optional string, as in \<open>errorMessage ? \<dots>\<close>: a string
  that was not passed and the empty string are falsy. \<open>truthy_text\<close> gives the string
  when it is truthy.
\<close>

fun truthy_text :: "string option \<Rightarrow> string option" where
  "truthy_text None = None"
| "truthy_text (Some s) = (if s = [] then None else Some s)"

datatype message = ErrorMessage string | HelperText string | NoMessage

text \<open>What is rendered: the attributes of the input element, the icons, the message.\<close>

record field_view =
  viewType :: string
  viewDisabled :: bool
  viewValue :: "string option"
  ariaInvalid :: bool
  spinner :: bool
  clearButton :: bool
  revealButton :: bool
  viewMessage :: message

definition messageBelow :: "field_props \<Rightarrow> message" where
  "messageBelow p =
     (case (if invalid p then truthy_text (errorMessage p) else None) of
        Some e \<Rightarrow> ErrorMessage e
      | None \<Rightarrow>
          (case truthy_text (helperText p) of
             Some t \<Rightarrow> HelperText t
           | None \<Rightarrow> NoMessage))"

definition InputField :: "field_props \<Rightarrow> field_state \<Rightarrow> field_view" where
  "InputField p st =
     (let isPassword = (inputType p = ''password'');
          hasClearButton = (onClear p \<and> truthy_text (fieldValue p) \<noteq> None)
      in \<lparr>viewType = (if isPassword \<and> showPassword st then ''text'' else inputType p),
          viewDisabled = (disabled p \<or> fieldLoading p),
          viewValue = fieldValue p,
          ariaInvalid = invalid p,
          spinner = fieldLoading p,
          clearButton = hasClearButton,
          revealButton = isPassword,
          viewMessage = messageBelow p\<rparr>)"

text \<open>
  The reveal button, \<open>onClick={() => setShowPassword(!showPassword)}\<close>; it is rendered
  only for the password type.
\<close>

definition clickReveal :: "field_props \<Rightarrow> field_state \<Rightarrow> field_state" where
  "clickReveal p st =
     (if inputType p = ''password'' then st\<lparr>showPassword := \<not> showPassword st\<rparr> else st)"

section \<open>Numeric values and concrete inputs\<close>

text \<open>
  An object literal with numeric fields is the map of its fields: a field that is absent
  reads as \<open>undefined\<close>, here \<open>None\<close>.
\<close>

definition obj :: "(pkey \<times> 'a) list \<Rightarrow> 'a option row" where
  "obj kvs = map_of kvs"

text \<open>
  The comparison \<open><\<close> on values of type \<open>number | undefined\<close> (integers only):
  \<open>undefined\<close> converts to NaN, and every comparison with NaN is false.
\<close>

definition num_lt :: "int option \<Rightarrow> int option \<Rightarrow> bool" where
  "num_lt a b = (case a of None \<Rightarrow> False | Some x \<Rightarrow> (case b of None \<Rightarrow> False | Some y \<Rightarrow> x < y))"

text \<open>None of the values \<open>undefined\<close> and the integers is NaN.\<close>

definition never_NaN :: "int option \<Rightarrow> bool" where
  "never_NaN v = False"

text \<open>
  Numbers with NaN, for rows whose key is not a number: a field of type
  \<open>number | undefined\<close> holds \<open>undefined\<close> (\<open>None\<close>), NaN or an integer.
\<close>

datatype jsnum = NaN | Num int

definition is_NaN :: "jsnum option \<Rightarrow> bool" where
  "is_NaN v = (v = Some NaN)"

text \<open>The record \<open>{ id: NaN }\<close>.\<close>

definition nanRow :: "jsnum option row" where
  "nanRow = obj [(StrKey ''id'', NaN)]"

text \<open>Two of the columns of the demonstration data.\<close>

definition nameColumn :: column where
  "nameColumn = \<lparr>key = ''name'', title = ''Name'', dataIndex = StrKey ''name'', sortable = True\<rparr>"

definition emailColumn :: column where
  "emailColumn = \<lparr>key = ''email'', title = ''Email'', dataIndex = StrKey ''email'', sortable = True\<rparr>"

text \<open>
  The table as the demonstration page mounts it (\<open>selectable\<close>, a callback supplied,
  \<open>rowKey="id"\<close>), over rows that carry a numeric \<open>id\<close>; \<open>ids\<close> reads the keys of a
  selection back.
\<close>

definition idRows :: "int list \<Rightarrow> int option row list" where
  "idRows is = map (\<lambda>i. obj [(StrKey ''id'', i)]) is"

definition ids :: "int option row list \<Rightarrow> int option list" where
  "ids sel = map (\<lambda>r. r (StrKey ''id'')) sel"

definition demoProps :: "'v row list \<Rightarrow> 'v props" where
  "demoProps d =
     \<lparr>data = d, columns = [nameColumn, emailColumn], loading = False, selectable = True,
      onRowSelect = True, rowKey = StrKey ''id''\<rparr>"

text \<open>
  A column over the numeric key \<open>0\<close>, for rows such as \<open>{0: 2, id: 1}\<close>, and a column
  over the key \<open>score\<close> for rows that hold the same numbers under that name.
\<close>

definition zeroColumn :: column where
  "zeroColumn = \<lparr>key = ''c0'', title = ''Score'', dataIndex = NumKey 0, sortable = True\<rparr>"

definition scoreColumn :: column where
  "scoreColumn = \<lparr>key = ''score'', title = ''Score'', dataIndex = StrKey ''score'', sortable = True\<rparr>"

text \<open>Rows that carry a numeric \<open>score\<close>, and the scores of a sequence of rows.\<close>

definition scoreRows :: "int list \<Rightarrow> int option row list" where
  "scoreRows ns = map (\<lambda>n. obj [(StrKey ''score'', n)]) ns"

definition scores :: "int option row list \<Rightarrow> int option list" where
  "scores rs = map (\<lambda>r. r (StrKey ''score'')) rs"

text \<open>A field as the demonstration page mounts its password input.\<close>

definition passwordField :: field_props where
  "passwordField =
     \<lparr>inputType = ''password'', fieldValue = Some ''password123'', label = Some ''Password Toggle'',
      placeholder = None,
      helperText = Some ''Your password must be at least 8 characters.'',
      errorMessage = None, disabled = False, invalid = False, fieldLoading = False,
      onClear = False\<rparr>"

section \<open>Order of the displayed rows, as a predicate\<close>

text \<open>
  \<open>before_ok lt k ord a b\<close>: in the direction \<open>ord\<close> the record \<open>a\<close> may stand before
  the record \<open>b\<close>, because the value of \<open>b\<close> in column \<open>k\<close> is not strictly before that
  of \<open>a\<close>.
\<close>

definition before_ok :: "('v \<Rightarrow> 'v \<Rightarrow> bool) \<Rightarrow> pkey \<Rightarrow> SortOrder \<Rightarrow> 'v row \<Rightarrow> 'v row \<Rightarrow> bool" where
  "before_ok lt k ord a b = (if ord = asc then \<not> lt (b k) (a k) else \<not> lt (a k) (b k))"

section \<open>The sort state under header clicks\<close>








section \<open>The three display states\<close>

text \<open>
  C4. The table renders exactly one of the three display states, by this priority:
  the loading state when the loading flag is true, whatever the data; otherwise the
  empty state when the data sequence is empty, whatever the selectable flag; otherwise
  the populated body.
\<close>

theorem displayState_priority:
  "displayState p =
     (if loading p then LoadingState else if data p = [] then EmptyState else TableBody)
   \<and> displayState (p\<lparr>loading := True, data := d\<rparr>) = LoadingState
   \<and> displayState (p\<lparr>loading := False, data := [], selectable := s\<rparr>) = EmptyState
   \<and> displayState (p\<lparr>loading := False, data := r # rs\<rparr>) = TableBody"
  by (simp add: displayState_def)

section \<open>Selection\<close>

lemma filter_key_absent:
  "\<not> list_ex (\<lambda>x. f x = v) xs \<Longrightarrow> filter (\<lambda>x. f x \<noteq> v) xs = xs"
  by (induction xs) auto

lemma length_filter_other_keys:
  "distinct (map f xs) \<Longrightarrow> r \<in> set xs \<Longrightarrow>
   length (filter (\<lambda>x. f x \<noteq> f r) xs) = length xs - 1"
proof (induction xs)
  case Nil
  then show ?case by simp
next
  case (Cons x xs)
  show ?case
  proof (cases "f x = f r")
    case True
    with Cons.prems have "\<not> list_ex (\<lambda>y. f y = f r) xs"
      by (auto simp: list_ex_iff image_iff)
    then have "filter (\<lambda>y. f y \<noteq> f r) xs = xs"
      by (rule filter_key_absent)
    with True show ?thesis by simp
  next
    case False
    with Cons.prems have r: "r \<in> set xs" and d: "distinct (map f xs)" by auto
    from r have "xs \<noteq> []" by auto
    then have "0 < length xs" by simp
    with Cons.IH [OF d r] False show ?thesis by simp
  qed
qed

lemma same_length_iff_covered:
  assumes "distinct (map f S)" and "distinct (map f D)" and "f ` set S \<subseteq> f ` set D"
  shows "length S = length D \<longleftrightarrow> f ` set D \<subseteq> f ` set S"
proof -
  have cS: "card (f ` set S) = length S"
    using assms(1) distinct_card [of "map f S"] by simp
  have cD: "card (f ` set D) = length D"
    using assms(2) distinct_card [of "map f D"] by simp
  show ?thesis
  proof
    assume "length S = length D"
    with cS cD have "card (f ` set S) = card (f ` set D)" by simp
    with assms(3) have "f ` set S = f ` set D"
      by (simp add: card_subset_eq)
    then show "f ` set D \<subseteq> f ` set S" by simp
  next
    assume "f ` set D \<subseteq> f ` set S"
    with assms(3) have "f ` set S = f ` set D" by blast
    with cS cD show "length S = length D" by simp
  qed
qed

lemma strict_eq_key:
  "\<not> isNaN v \<Longrightarrow> strict_eq isNaN u v \<longleftrightarrow> u = v"
  by (auto simp: strict_eq_def)

lemma all_selected_iff:
  assumes "list_all (\<lambda>d. \<not> isNaN (d k)) D"
  shows "list_all (isRowSelected isNaN k S) D \<longleftrightarrow> (\<lambda>r. r k) ` set D \<subseteq> (\<lambda>r. r k) ` set S"
proof -
  have "isRowSelected isNaN k S d \<longleftrightarrow> d k \<in> (\<lambda>r. r k) ` set S" if "d \<in> set D" for d
  proof -
    from that assms have "\<not> isNaN (d k)" by (simp add: list_all_iff)
    then show ?thesis
      unfolding isRowSelected_def list_ex_iff image_iff by (metis strict_eq_key)
  qed
  then show ?thesis
    by (auto simp: list_all_iff)
qed

lemma keys_within_iff:
  "list_all (\<lambda>s. list_ex (\<lambda>d. d k = s k) D) S \<longleftrightarrow> (\<lambda>r. r k) ` set S \<subseteq> (\<lambda>r. r k) ` set D"
  unfolding list_all_iff list_ex_iff subset_iff image_iff by metis

text \<open>
  C3, as the claim states it, fails: the control clears the selection whenever the
  selection has as many records as the data, also when it selects none of them. Here
  the host has replaced the data by rows 1 and 2 while rows 3 and 4 are still selected.
\<close>

theorem handleSelectAll_stale_counterexample:
  "selectedRows (fst (handleSelectAll (demoProps (idRows [1, 2]))
       (initial_state\<lparr>selectedRows := idRows [3, 4]\<rparr>))) = []
   \<and> \<not> list_all (isRowSelected never_NaN (StrKey ''id'') (idRows [3, 4])) (idRows [1, 2])
   \<and> \<not> list_ex (isRowSelected never_NaN (StrKey ''id'') (idRows [3, 4])) (idRows [1, 2])"
  by (simp add: handleSelectAll_def demoProps_def idRows_def initial_state_def
      isRowSelected_def strict_eq_def never_NaN_def obj_def Let_def)

text \<open>
  C3, amended. For every data sequence \<open>D\<close> and every current selection \<open>S\<close>,
  activating the select-all control replaces \<open>S\<close> by the empty selection when \<open>S\<close> has as
  many records as \<open>D\<close>, and by exactly \<open>D\<close> (in \<open>D\<close>'s order, whatever the sort state)
  otherwise; the callback, when supplied, is invoked with the new selection, and with
  nothing else. The size test is the one behind the control's checked state
  (\<open>isAllSelected\<close>). When the keys of \<open>S\<close> are pairwise distinct and occur in \<open>D\<close>,
  and the keys of \<open>D\<close> are pairwise distinct and none of them is NaN, having as many
  records as \<open>D\<close> is the same as selecting all of \<open>D\<close>.
\<close>

theorem handleSelectAll_by_length:
  "selectedRows (fst (handleSelectAll p st))
     = (if length (selectedRows st) = length (data p) then [] else data p)
   \<and> set (snd (handleSelectAll p st))
     = (if onRowSelect p then {selectedRows (fst (handleSelectAll p st))} else {})
   \<and> selectedRows (fst (handleSelectAll p (st\<lparr>sortKey := sk, sortOrder := so\<rparr>)))
     = selectedRows (fst (handleSelectAll p st))
   \<and> sortKey (fst (handleSelectAll p st)) = sortKey st
   \<and> sortOrder (fst (handleSelectAll p st)) = sortOrder st
   \<and> (length (selectedRows st) = length (data p)
        \<longleftrightarrow> isAllSelected p st \<or> (data p = [] \<and> selectedRows st = []))
   \<and> (distinct (map (\<lambda>r. r (rowKey p)) (selectedRows st))
        \<and> distinct (map (\<lambda>r. r (rowKey p)) (data p))
        \<and> list_all (\<lambda>d. \<not> isNaN (d (rowKey p))) (data p)
        \<and> list_all (\<lambda>s. list_ex (\<lambda>d. d (rowKey p) = s (rowKey p)) (data p)) (selectedRows st)
      \<longrightarrow> (length (selectedRows st) = length (data p)
            \<longleftrightarrow> list_all (isRowSelected isNaN (rowKey p) (selectedRows st)) (data p)))"
proof -
  have "length (selectedRows st) = length (data p)
      \<longleftrightarrow> list_all (isRowSelected isNaN (rowKey p) (selectedRows st)) (data p)"
    if "distinct (map (\<lambda>r. r (rowKey p)) (selectedRows st))"
      and "distinct (map (\<lambda>r. r (rowKey p)) (data p))"
      and "list_all (\<lambda>d. \<not> isNaN (d (rowKey p))) (data p)"
      and "list_all (\<lambda>s. list_ex (\<lambda>d. d (rowKey p) = s (rowKey p)) (data p)) (selectedRows st)"
    using that same_length_iff_covered [of "\<lambda>r. r (rowKey p)" "selectedRows st" "data p"]
    by (simp add: all_selected_iff keys_within_iff)
  moreover have "length (selectedRows st) = length (data p)
      \<longleftrightarrow> isAllSelected p st \<or> (data p = [] \<and> selectedRows st = [])"
    by (auto simp: isAllSelected_def)
  ultimately show ?thesis
    by (simp add: handleSelectAll_def notify_def Let_def)
qed

theorem handleSelectAll_by_length_witness:
  "ids (selectedRows (fst (handleSelectAll (demoProps (idRows [1, 2, 3]))
       (initial_state\<lparr>selectedRows := idRows [2]\<rparr>)))) = [Some 1, Some 2, Some 3]
   \<and> selectedRows (fst (handleSelectAll (demoProps (idRows [1, 2, 3]))
       (initial_state\<lparr>selectedRows := idRows [3, 1, 2]\<rparr>))) = []
   \<and> ids ` set (snd (handleSelectAll (demoProps (idRows [1, 2, 3]))
       (initial_state\<lparr>selectedRows := idRows [2]\<rparr>))) = {[Some 1, Some 2, Some 3]}
   \<and> (length (idRows [3, 1, 2]) = length (idRows [1, 2, 3]))
   \<and> list_all (isRowSelected never_NaN (StrKey ''id'') (idRows [3, 1, 2])) (idRows [1, 2, 3])"
proof -
  let ?p = "demoProps (idRows [1, 2, 3])"
  let ?one = "initial_state\<lparr>selectedRows := idRows [2]\<rparr>"
  let ?all = "initial_state\<lparr>selectedRows := idRows [3, 1, 2]\<rparr>"
  have pre: "distinct (map (\<lambda>r. r (rowKey ?p)) (selectedRows ?all))
      \<and> distinct (map (\<lambda>r. r (rowKey ?p)) (data ?p))
      \<and> list_all (\<lambda>d. \<not> never_NaN (d (rowKey ?p))) (data ?p)
      \<and> list_all (\<lambda>s. list_ex (\<lambda>d. d (rowKey ?p) = s (rowKey ?p)) (data ?p)) (selectedRows ?all)"
    by (simp add: demoProps_def idRows_def obj_def never_NaN_def)
  have len: "length (selectedRows ?all) = length (data ?p)"
    by (simp add: demoProps_def idRows_def)
  from handleSelectAll_by_length [of ?p ?all None None never_NaN] pre len
  have covered: "list_all (isRowSelected never_NaN (rowKey ?p) (selectedRows ?all)) (data ?p)"
    by blast
  from handleSelectAll_by_length [of ?p ?one None None never_NaN]
  have some: "selectedRows (fst (handleSelectAll ?p ?one))
        = (if length (selectedRows ?one) = length (data ?p) then [] else data ?p)"
    and called: "set (snd (handleSelectAll ?p ?one))
        = (if onRowSelect ?p then {selectedRows (fst (handleSelectAll ?p ?one))} else {})"
    by blast+
  from handleSelectAll_by_length [of ?p ?all None None never_NaN]
  have full: "selectedRows (fst (handleSelectAll ?p ?all))
        = (if length (selectedRows ?all) = length (data ?p) then [] else data ?p)"
    by blast
  have called': "ids ` set (snd (handleSelectAll ?p ?one)) = {[Some 1, Some 2, Some 3]}"
    unfolding called some by (simp add: demoProps_def idRows_def ids_def obj_def)
  show ?thesis
    using covered some called' full
    by (simp add: demoProps_def idRows_def ids_def obj_def)
qed

lemma selectAllTimes_empty:
  "snd (selectAllTimes n (p\<lparr>data := []\<rparr>) st) = (if onRowSelect p then replicate n [] else [])
   \<and> (0 < n \<longrightarrow> selectedRows (fst (selectAllTimes n (p\<lparr>data := []\<rparr>) st)) = [])"
proof (induction n arbitrary: st)
  case 0
  then show ?case by simp
next
  case (Suc n)
  obtain st1 out1 where one: "handleSelectAll (p\<lparr>data := []\<rparr>) st = (st1, out1)"
    by (cases "handleSelectAll (p\<lparr>data := []\<rparr>) st")
  then have sel1: "selectedRows st1 = []" and o1: "out1 = (if onRowSelect p then [[]] else [])"
    by (auto simp: handleSelectAll_def notify_def Let_def)
  obtain st2 out2 where rest: "selectAllTimes n (p\<lparr>data := []\<rparr>) st1 = (st2, out2)"
    by (cases "selectAllTimes n (p\<lparr>data := []\<rparr>) st1")
  from Suc.IH [of st1] rest
  have o2: "out2 = (if onRowSelect p then replicate n [] else [])"
    and sel2: "0 < n \<longrightarrow> selectedRows st2 = []"
    by simp_all
  have "selectedRows st2 = []"
  proof (cases n)
    case 0
    with rest sel1 show ?thesis by simp
  next
    case (Suc m)
    with sel2 show ?thesis by simp
  qed
  with one rest o1 o2 show ?case by simp
qed

text \<open>
  C7. With an empty data sequence, select-all yields the empty selection from every
  prior selection, and however often it is activated every payload the callback
  receives is the empty selection.
\<close>

theorem handleSelectAll_empty_data:
  "selectedRows (fst (handleSelectAll (p\<lparr>data := []\<rparr>) st)) = []
   \<and> snd (handleSelectAll (p\<lparr>data := []\<rparr>) st) = (if onRowSelect p then [[]] else [])
   \<and> selectedRows (fst (selectAllTimes (Suc n) (p\<lparr>data := []\<rparr>) st)) = []
   \<and> snd (selectAllTimes n (p\<lparr>data := []\<rparr>) st) = (if onRowSelect p then replicate n [] else [])
   \<and> list_all (\<lambda>payload. payload = []) (snd (selectAllTimes n (p\<lparr>data := []\<rparr>) st))"
proof -
  have "list_all (\<lambda>payload. payload = []) (replicate n ([] :: 'a row list))"
    by (simp add: list_all_iff)
  then show ?thesis
    using selectAllTimes_empty [of n p st] selectAllTimes_empty [of "Suc n" p st]
    by (simp add: handleSelectAll_def notify_def Let_def del: selectAllTimes.simps)
qed

text \<open>
  A row whose key value is NaN is strictly equal to no selected record, itself included:
  every toggle of it appends it once more, and no toggle removes it.
\<close>

lemma handleSelectRow_NaN_key:
  "isNaN (r (rowKey p)) \<Longrightarrow>
   selectedRows (fst (handleSelectRow isNaN p r st)) = selectedRows st @ [r]"
  by (simp add: handleSelectRow_def Let_def strict_eq_def list_ex_iff)

text \<open>
  C10, as the claim states it, fails for a row whose key value is NaN: no record of the
  empty selection has the key of the row \<open>{ id: NaN }\<close>, yet toggling the row twice
  leaves the row selected twice instead of the empty selection, and the row is still
  not reported as selected.
\<close>

theorem handleSelectRow_NaN_counterexample:
  "selectedRows (initial_state :: jsnum option table_state) = []
   \<and> \<not> isRowSelected is_NaN (StrKey ''id'') (selectedRows initial_state) nanRow
   \<and> map (\<lambda>x. x (StrKey ''id''))
        (selectedRows (fst (handleSelectRow is_NaN (demoProps [nanRow]) nanRow
           (fst (handleSelectRow is_NaN (demoProps [nanRow]) nanRow initial_state)))))
      = [Some NaN, Some NaN]
   \<and> \<not> isRowSelected is_NaN (StrKey ''id'')
        (selectedRows (fst (handleSelectRow is_NaN (demoProps [nanRow]) nanRow
           (fst (handleSelectRow is_NaN (demoProps [nanRow]) nanRow initial_state)))))
        nanRow"
  by (simp add: handleSelectRow_def isRowSelected_def strict_eq_def is_NaN_def nanRow_def
      demoProps_def initial_state_def obj_def Let_def)

text \<open>
  C10, amended. For a row \<open>r\<close> whose key value is not NaN: toggling \<open>r\<close> when no
  selected record carries its key appends the row, and toggling it again restores the
  selection exactly, records and order; toggling \<open>r\<close> when selected records carry its key
  leaves exactly the records with another key, in their order, so that no record with
  the key of \<open>r\<close> remains. Every payload the callback receives is the new selection.
\<close>

theorem handleSelectRow_involution:
  "(\<not> isNaN (r (rowKey p)) \<and> \<not> isRowSelected isNaN (rowKey p) (selectedRows st) r \<longrightarrow>
      selectedRows (fst (handleSelectRow isNaN p r st)) = selectedRows st @ [r]
      \<and> fst (handleSelectRow isNaN p r (fst (handleSelectRow isNaN p r st))) = st)
   \<and> (\<not> isNaN (r (rowKey p)) \<and> isRowSelected isNaN (rowKey p) (selectedRows st) r \<longrightarrow>
      selectedRows (fst (handleSelectRow isNaN p r st))
        = filter (\<lambda>x. x (rowKey p) \<noteq> r (rowKey p)) (selectedRows st)
      \<and> \<not> isRowSelected isNaN (rowKey p) (selectedRows (fst (handleSelectRow isNaN p r st))) r)
   \<and> set (snd (handleSelectRow isNaN p r st))
        = (if onRowSelect p then {selectedRows (fst (handleSelectRow isNaN p r st))} else {})"
proof -
  let ?k = "rowKey p"
  let ?S = "selectedRows st"
  have key: "strict_eq isNaN (x ?k) (r ?k) \<longleftrightarrow> x ?k = r ?k" if "\<not> isNaN (r ?k)" for x
    using that by (rule strict_eq_key)
  have absent: "filter (\<lambda>x. x ?k \<noteq> r ?k) ?S = ?S"
    if "\<not> isNaN (r ?k)" "\<not> isRowSelected isNaN ?k ?S r"
    using that key filter_key_absent [of "\<lambda>x. x ?k" "r ?k" ?S]
    by (simp add: isRowSelected_def)
  have once: "selectedRows (fst (handleSelectRow isNaN p r st)) = ?S @ [r]"
    if "\<not> isRowSelected isNaN ?k ?S r"
    using that by (simp add: handleSelectRow_def isRowSelected_def Let_def)
  have twice: "fst (handleSelectRow isNaN p r (fst (handleSelectRow isNaN p r st))) = st"
    if "\<not> isNaN (r ?k)" "\<not> isRowSelected isNaN ?k ?S r"
    using that absent [OF that] key [OF that(1)]
    by (simp add: handleSelectRow_def isRowSelected_def Let_def)
  have removed: "selectedRows (fst (handleSelectRow isNaN p r st))
        = filter (\<lambda>x. x ?k \<noteq> r ?k) ?S
      \<and> \<not> isRowSelected isNaN ?k (selectedRows (fst (handleSelectRow isNaN p r st))) r"
    if "\<not> isNaN (r ?k)" "isRowSelected isNaN ?k ?S r"
    using that key [OF that(1)]
    by (simp add: handleSelectRow_def isRowSelected_def Let_def list_ex_iff)
  have called: "set (snd (handleSelectRow isNaN p r st))
      = (if onRowSelect p then {selectedRows (fst (handleSelectRow isNaN p r st))} else {})"
    by (simp add: handleSelectRow_def notify_def Let_def)
  show ?thesis
    using once twice removed called by blast
qed

theorem handleSelectRow_involution_witness:
  "ids (selectedRows (fst (handleSelectRow never_NaN (demoProps (idRows [1, 2, 3]))
         (obj [(StrKey ''id'', 2)]) (initial_state\<lparr>selectedRows := idRows [3, 1]\<rparr>))))
     = [Some 3, Some 1, Some 2]
   \<and> fst (handleSelectRow never_NaN (demoProps (idRows [1, 2, 3])) (obj [(StrKey ''id'', 2)])
         (fst (handleSelectRow never_NaN (demoProps (idRows [1, 2, 3])) (obj [(StrKey ''id'', 2)])
            (initial_state\<lparr>selectedRows := idRows [3, 1]\<rparr>))))
     = initial_state\<lparr>selectedRows := idRows [3, 1]\<rparr>
   \<and> ids (selectedRows (fst (handleSelectRow never_NaN (demoProps (idRows [1, 2, 3]))
         (obj [(StrKey ''id'', 1)]) (initial_state\<lparr>selectedRows := idRows [3, 1, 2, 1]\<rparr>))))
     = [Some 3, Some 2]"
proof -
  let ?p = "demoProps (idRows [1, 2, 3])"
  let ?s = "initial_state\<lparr>selectedRows := idRows [3, 1]\<rparr>"
  let ?t = "initial_state\<lparr>selectedRows := idRows [3, 1, 2, 1]\<rparr>"
  have "\<not> never_NaN (obj [(StrKey ''id'', 2 :: int)] (rowKey ?p))
      \<and> \<not> isRowSelected never_NaN (rowKey ?p) (selectedRows ?s) (obj [(StrKey ''id'', 2)])"
    by (simp add: isRowSelected_def strict_eq_def never_NaN_def demoProps_def idRows_def obj_def)
  with handleSelectRow_involution [of never_NaN "obj [(StrKey ''id'', 2)]" ?p ?s]
  have add: "selectedRows (fst (handleSelectRow never_NaN ?p (obj [(StrKey ''id'', 2)]) ?s))
        = selectedRows ?s @ [obj [(StrKey ''id'', 2)]]"
    and again: "fst (handleSelectRow never_NaN ?p (obj [(StrKey ''id'', 2)])
        (fst (handleSelectRow never_NaN ?p (obj [(StrKey ''id'', 2)]) ?s))) = ?s"
    by blast+
  have "\<not> never_NaN (obj [(StrKey ''id'', 1 :: int)] (rowKey ?p))
      \<and> isRowSelected never_NaN (rowKey ?p) (selectedRows ?t) (obj [(StrKey ''id'', 1)])"
    by (simp add: isRowSelected_def strict_eq_def never_NaN_def demoProps_def idRows_def obj_def)
  with handleSelectRow_involution [of never_NaN "obj [(StrKey ''id'', 1)]" ?p ?t]
  have remove: "selectedRows (fst (handleSelectRow never_NaN ?p (obj [(StrKey ''id'', 1)]) ?t))
        = filter (\<lambda>x. x (rowKey ?p) \<noteq> obj [(StrKey ''id'', 1)] (rowKey ?p)) (selectedRows ?t)"
    by blast
  show ?thesis
    using add again remove
    by (simp add: ids_def demoProps_def idRows_def obj_def)
qed

text \<open>
  C5, as the claim states it, fails for a row whose key value is NaN: the data sequence
  is the single row \<open>{ id: NaN }\<close>, non-empty and with pairwise distinct keys; after
  select-all, toggling that row leaves two records where the claim promises
  \<open>|D| - 1 = 0\<close>, both with the key of the toggled row.
\<close>

theorem select_all_then_toggle_NaN_counterexample:
  "data (demoProps [nanRow]) \<noteq> []
   \<and> distinct (map (\<lambda>x. x (StrKey ''id'')) (data (demoProps [nanRow])))
   \<and> map (\<lambda>x. x (StrKey ''id''))
        (selectedRows (fst (handleSelectAll (demoProps [nanRow]) initial_state)))
      = [Some NaN]
   \<and> map (\<lambda>x. x (StrKey ''id''))
        (selectedRows (fst (handleSelectRow is_NaN (demoProps [nanRow]) nanRow
           (fst (handleSelectAll (demoProps [nanRow]) initial_state)))))
      = [Some NaN, Some NaN]
   \<and> length (selectedRows (fst (handleSelectRow is_NaN (demoProps [nanRow]) nanRow
           (fst (handleSelectAll (demoProps [nanRow]) initial_state)))))
      = 2
   \<and> length (data (demoProps [nanRow])) - 1 = 0"
  by (simp add: handleSelectRow_def handleSelectAll_def strict_eq_def is_NaN_def nanRow_def
      demoProps_def initial_state_def obj_def Let_def)

text \<open>
  C5, amended. For a non-empty data sequence with pairwise distinct row keys and a row
  \<open>r\<close> of it whose key value is not NaN: select-all (from a selection of another size
  than the data, such as the initial empty one) selects all of \<open>D\<close>; toggling \<open>r\<close> then
  leaves exactly the records of \<open>D\<close> whose key differs from the key of \<open>r\<close>, which are
  \<open>|D| - 1\<close> records; every payload the callback receives for the toggle is this full
  new selection; and any row object with the same key has the same effect.
\<close>

theorem select_all_then_toggle:
  assumes "data p \<noteq> []"
    and "distinct (map (\<lambda>x. x (rowKey p)) (data p))"
    and "r \<in> set (data p)"
    and "\<not> isNaN (r (rowKey p))"
    and "length (selectedRows st) \<noteq> length (data p)"
  shows "selectedRows (fst (handleSelectAll p st)) = data p
    \<and> selectedRows (fst (handleSelectRow isNaN p r (fst (handleSelectAll p st))))
        = filter (\<lambda>x. x (rowKey p) \<noteq> r (rowKey p)) (data p)
    \<and> length (selectedRows (fst (handleSelectRow isNaN p r (fst (handleSelectAll p st)))))
        = length (data p) - 1
    \<and> set (selectedRows (fst (handleSelectRow isNaN p r (fst (handleSelectAll p st)))))
        = {x \<in> set (data p). x (rowKey p) \<noteq> r (rowKey p)}
    \<and> set (snd (handleSelectRow isNaN p r (fst (handleSelectAll p st))))
        = (if onRowSelect p then {filter (\<lambda>x. x (rowKey p) \<noteq> r (rowKey p)) (data p)} else {})
    \<and> (q (rowKey p) = r (rowKey p) \<longrightarrow>
         handleSelectRow isNaN p q (fst (handleSelectAll p st))
           = handleSelectRow isNaN p r (fst (handleSelectAll p st)))"
proof -
  let ?k = "\<lambda>x. x (rowKey p)"
  have key: "strict_eq isNaN (?k x) (?k r) \<longleftrightarrow> ?k x = ?k r" for x
    using assms(4) by (rule strict_eq_key)
  have all: "selectedRows (fst (handleSelectAll p st)) = data p"
    using assms(5) by (simp add: handleSelectAll_def Let_def)
  have sel: "list_ex (\<lambda>x. ?k x = ?k r) (data p)"
    using assms(3) by (auto simp: list_ex_iff)
  have toggle: "selectedRows (fst (handleSelectRow isNaN p r (fst (handleSelectAll p st))))
      = filter (\<lambda>x. ?k x \<noteq> ?k r) (data p)"
    using sel by (simp add: handleSelectRow_def Let_def all key)
  have len: "length (filter (\<lambda>x. ?k x \<noteq> ?k r) (data p)) = length (data p) - 1"
    using assms(2,3) by (rule length_filter_other_keys)
  have out: "set (snd (handleSelectRow isNaN p r (fst (handleSelectAll p st))))
      = (if onRowSelect p then {filter (\<lambda>x. ?k x \<noteq> ?k r) (data p)} else {})"
    using sel by (simp add: handleSelectRow_def Let_def all notify_def key)
  have same: "handleSelectRow isNaN p q (fst (handleSelectAll p st))
      = handleSelectRow isNaN p r (fst (handleSelectAll p st))" if "?k q = ?k r"
    using that sel by (simp add: handleSelectRow_def Let_def all key)
  show ?thesis
    using all toggle len out same by simp
qed

theorem select_all_then_toggle_witness:
  "ids (selectedRows (fst (handleSelectAll (demoProps (idRows [1, 2, 3])) initial_state)))
     = [Some 1, Some 2, Some 3]
   \<and> ids (selectedRows (fst (handleSelectRow never_NaN (demoProps (idRows [1, 2, 3]))
         (obj [(StrKey ''id'', 2)])
         (fst (handleSelectAll (demoProps (idRows [1, 2, 3])) initial_state)))))
     = [Some 1, Some 3]
   \<and> length (selectedRows (fst (handleSelectRow never_NaN (demoProps (idRows [1, 2, 3]))
         (obj [(StrKey ''id'', 2)])
         (fst (handleSelectAll (demoProps (idRows [1, 2, 3])) initial_state)))))
     = 2
   \<and> ids ` set (snd (handleSelectRow never_NaN (demoProps (idRows [1, 2, 3]))
         (obj [(StrKey ''id'', 2)])
         (fst (handleSelectAll (demoProps (idRows [1, 2, 3])) initial_state))))
     = {[Some 1, Some 3]}
   \<and> ids (selectedRows (fst (handleSelectRow never_NaN (demoProps (idRows [1, 2, 3]))
         (obj [(StrKey ''id'', 2), (StrKey ''age'', 40)])
         (fst (handleSelectAll (demoProps (idRows [1, 2, 3])) initial_state)))))
     = [Some 1, Some 3]"
proof -
  let ?p = "demoProps (idRows [1, 2, 3])"
  let ?i = "initial_state :: int option table_state"
  let ?r = "obj [(StrKey ''id'', 2 :: int)]"
  let ?q = "obj [(StrKey ''id'', 2 :: int), (StrKey ''age'', 40)]"
  have h1: "data ?p \<noteq> []"
    by (simp add: demoProps_def idRows_def)
  have h2: "distinct (map (\<lambda>x. x (rowKey ?p)) (data ?p))"
    by (simp add: demoProps_def idRows_def obj_def)
  have h3: "?r \<in> set (data ?p)"
    by (simp add: demoProps_def idRows_def)
  have h4: "\<not> never_NaN (?r (rowKey ?p))"
    by (simp add: never_NaN_def)
  have h5: "length (selectedRows ?i) \<noteq> length (data ?p)"
    by (simp add: demoProps_def idRows_def initial_state_def)
  have h6: "?q (rowKey ?p) = ?r (rowKey ?p)"
    by (simp add: demoProps_def obj_def)
  note main = select_all_then_toggle
    [where p = ?p and r = ?r and isNaN = never_NaN and st = ?i and q = ?q, OF h1 h2 h3 h4 h5]
  from main have same: "handleSelectRow never_NaN ?p ?q (fst (handleSelectAll ?p ?i))
      = handleSelectRow never_NaN ?p ?r (fst (handleSelectAll ?p ?i))"
    using h6 by blast
  from main have
    a: "selectedRows (fst (handleSelectAll ?p ?i)) = data ?p" and
    b: "selectedRows (fst (handleSelectRow never_NaN ?p ?r (fst (handleSelectAll ?p ?i))))
        = filter (\<lambda>x. x (rowKey ?p) \<noteq> ?r (rowKey ?p)) (data ?p)" and
    c: "length (selectedRows (fst (handleSelectRow never_NaN ?p ?r (fst (handleSelectAll ?p ?i)))))
        = length (data ?p) - 1" and
    d: "set (snd (handleSelectRow never_NaN ?p ?r (fst (handleSelectAll ?p ?i))))
        = (if onRowSelect ?p then {filter (\<lambda>x. x (rowKey ?p) \<noteq> ?r (rowKey ?p)) (data ?p)}
           else {})"
    by blast+
  have a': "ids (selectedRows (fst (handleSelectAll ?p ?i))) = [Some 1, Some 2, Some 3]"
    unfolding a by (simp add: ids_def demoProps_def idRows_def obj_def)
  have b': "ids (selectedRows (fst (handleSelectRow never_NaN ?p ?r (fst (handleSelectAll ?p ?i)))))
      = [Some 1, Some 3]"
    unfolding b by (simp add: ids_def demoProps_def idRows_def obj_def)
  have c': "length (selectedRows (fst (handleSelectRow never_NaN ?p ?r (fst (handleSelectAll ?p ?i))))) = 2"
    unfolding c by (simp add: demoProps_def idRows_def)
  have d': "ids ` set (snd (handleSelectRow never_NaN ?p ?r (fst (handleSelectAll ?p ?i))))
      = {[Some 1, Some 3]}"
    unfolding d by (simp add: ids_def demoProps_def idRows_def obj_def)
  show ?thesis
    using a' b' c' d' by (simp add: same)
qed

section \<open>The displayed order\<close>

subsection \<open>The sort permutes, orders and is stable\<close>

lemma mset_sort_insert: "mset (sort_insert cmp x ys) = add_mset x (mset ys)"
  by (induction ys) simp_all

lemma mset_array_sort: "mset (array_sort cmp xs) = mset xs"
  by (induction xs) (simp_all add: array_sort_def mset_sort_insert)

lemma set_array_sort: "set (array_sort cmp xs) = set xs"
  using mset_array_sort [of cmp xs] by (metis set_mset_mset)

lemma length_array_sort: "length (array_sort cmp xs) = length xs"
  using mset_array_sort [of cmp xs] by (metis size_mset)

lemma set_sort_insert: "set (sort_insert cmp x ys) = insert x (set ys)"
  using mset_sort_insert [of cmp x ys] by (metis set_mset_add_mset_insert set_mset_mset)

text \<open>
  Stability in its general form: the elements satisfying \<open>P\<close> keep their order whenever
  the comparator never calls one of them strictly greater than another.
\<close>

lemma filter_sort_insert:
  assumes "\<And>y. y \<in> set ys \<Longrightarrow> P x \<Longrightarrow> P y \<Longrightarrow> cmp x y \<le> 0"
  shows "filter P (sort_insert cmp x ys) = filter P (x # ys)"
  using assms
proof (induction ys)
  case Nil
  then show ?case by simp
next
  case (Cons y ys)
  have IH: "filter P (sort_insert cmp x ys) = filter P (x # ys)"
    using Cons.IH Cons.prems by simp
  show ?case
  proof (cases "cmp x y > 0")
    case True
    with Cons.prems [of y] have "\<not> (P x \<and> P y)" by auto
    with True IH show ?thesis by auto
  next
    case False
    then show ?thesis by simp
  qed
qed

lemma filter_array_sort:
  assumes "\<And>x y. x \<in> set xs \<Longrightarrow> y \<in> set xs \<Longrightarrow> P x \<Longrightarrow> P y \<Longrightarrow> cmp x y \<le> 0"
  shows "filter P (array_sort cmp xs) = filter P xs"
  using assms
proof (induction xs)
  case Nil
  then show ?case by (simp add: array_sort_def)
next
  case (Cons x xs)
  have rest: "filter P (array_sort cmp xs) = filter P xs"
    using Cons.IH Cons.prems by simp
  have "filter P (sort_insert cmp x (array_sort cmp xs)) = filter P (x # array_sort cmp xs)"
    by (rule filter_sort_insert) (simp add: set_array_sort Cons.prems)
  with rest show ?case by (simp add: array_sort_def)
qed

lemma sorted_sort_insert:
  assumes trans: "\<And>a b c. a \<in> A \<Longrightarrow> b \<in> A \<Longrightarrow> c \<in> A \<Longrightarrow>
      cmp a b \<le> 0 \<Longrightarrow> cmp b c \<le> 0 \<Longrightarrow> cmp a c \<le> 0"
    and anti: "\<And>a b. a \<in> A \<Longrightarrow> b \<in> A \<Longrightarrow> cmp a b > 0 \<Longrightarrow> cmp b a \<le> 0"
    and x: "x \<in> A"
  shows "set ys \<subseteq> A \<Longrightarrow> sorted_wrt (\<lambda>a b. cmp a b \<le> 0) ys \<Longrightarrow>
         sorted_wrt (\<lambda>a b. cmp a b \<le> 0) (sort_insert cmp x ys)"
proof (induction ys)
  case Nil
  then show ?case by simp
next
  case (Cons y ys)
  from Cons.prems have y: "y \<in> A" and ys: "set ys \<subseteq> A" by auto
  show ?case
  proof (cases "cmp x y > 0")
    case True
    with Cons ys anti [OF x y] show ?thesis
      by (auto simp: set_sort_insert)
  next
    case False
    then have xy: "cmp x y \<le> 0" by simp
    have "cmp x z \<le> 0" if "z \<in> set ys" for z
    proof -
      from that ys have z: "z \<in> A" by auto
      from that Cons.prems have "cmp y z \<le> 0" by simp
      with trans [OF x y z xy] show ?thesis .
    qed
    with xy False Cons.prems show ?thesis by auto
  qed
qed

lemma sorted_array_sort:
  assumes trans: "\<And>a b c. a \<in> A \<Longrightarrow> b \<in> A \<Longrightarrow> c \<in> A \<Longrightarrow>
      cmp a b \<le> 0 \<Longrightarrow> cmp b c \<le> 0 \<Longrightarrow> cmp a c \<le> 0"
    and anti: "\<And>a b. a \<in> A \<Longrightarrow> b \<in> A \<Longrightarrow> cmp a b > 0 \<Longrightarrow> cmp b a \<le> 0"
  shows "set xs \<subseteq> A \<Longrightarrow> sorted_wrt (\<lambda>a b. cmp a b \<le> 0) (array_sort cmp xs)"
proof (induction xs)
  case Nil
  then show ?case by (simp add: array_sort_def)
next
  case (Cons x xs)
  then have x: "x \<in> A" and sub: "set (array_sort cmp xs) \<subseteq> A"
    and IH: "sorted_wrt (\<lambda>a b. cmp a b \<le> 0) (array_sort cmp xs)"
    by (simp_all add: set_array_sort)
  have "sorted_wrt (\<lambda>a b. cmp a b \<le> 0) (sort_insert cmp x (array_sort cmp xs))"
    using trans anti x sub IH by (rule sorted_sort_insert)
  then show ?case by (simp add: array_sort_def)
qed

text \<open>
  The comparator of the component. Where the comparison never holds in both directions
  between two values, \<open>a\<close> may stay before \<open>b\<close> exactly when \<open>b\<close> is not strictly before
  \<open>a\<close> in the chosen direction.
\<close>

lemma compareRows_le:
  assumes "\<not> (lt (a k) (b k) \<and> lt (b k) (a k))"
  shows "compareRows lt k ord a b \<le> 0 \<longleftrightarrow> before_ok lt k ord a b"
  using assms by (cases ord) (auto simp: compareRows_def before_ok_def Let_def)

text \<open>
  For a truthy sort key and a direction, when the comparison is a strict weak order on
  the values of the column (asymmetric and negatively transitive, as \<open><\<close> is on strings
  and on numbers; a column holding \<open>undefined\<close> or NaN beside numbers is not): the
  displayed sequence is a permutation of the data, it is ordered by the column's values
  in the chosen direction, and the records whose value is neither less nor greater than
  that of a record \<open>r\<close> keep their order from the data, in both directions.
\<close>

lemma sortedData_truthy_key:
  assumes key: "sortKey st = Some k" "truthy_key k" and ord: "sortOrder st = Some ord"
    and asym: "\<And>a b. a \<in> set (data p) \<Longrightarrow> b \<in> set (data p) \<Longrightarrow>
      lt (a k) (b k) \<Longrightarrow> \<not> lt (b k) (a k)"
    and negtrans: "\<And>a b c. a \<in> set (data p) \<Longrightarrow> b \<in> set (data p) \<Longrightarrow> c \<in> set (data p) \<Longrightarrow>
      \<not> lt (a k) (b k) \<Longrightarrow> \<not> lt (b k) (c k) \<Longrightarrow> \<not> lt (a k) (c k)"
  shows "mset (sortedData lt p st) = mset (data p)"
    and "sorted_wrt (before_ok lt k ord) (sortedData lt p st)"
    and "r \<in> set (data p) \<Longrightarrow>
         filter (\<lambda>x. \<not> lt (x k) (r k) \<and> \<not> lt (r k) (x k)) (sortedData lt p st)
         = filter (\<lambda>x. \<not> lt (x k) (r k) \<and> \<not> lt (r k) (x k)) (data p)"
proof -
  let ?cmp = "compareRows lt k ord"
  let ?D = "set (data p)"
  have eq: "sortedData lt p st = array_sort ?cmp (data p)"
    using key ord by (simp add: sortedData_def)
  show "mset (sortedData lt p st) = mset (data p)"
    by (simp add: eq mset_array_sort)
  have le: "?cmp a b \<le> 0 \<longleftrightarrow> before_ok lt k ord a b" if "a \<in> ?D" "b \<in> ?D" for a b
    using asym [OF that] by (intro compareRows_le) blast
  have tr: "?cmp a c \<le> 0" if "a \<in> ?D" "b \<in> ?D" "c \<in> ?D" "?cmp a b \<le> 0" "?cmp b c \<le> 0"
    for a b c
    using that negtrans [of c b a] negtrans [of a b c]
    by (auto simp: le before_ok_def split: if_splits)
  have an: "?cmp b a \<le> 0" if "a \<in> ?D" "b \<in> ?D" "?cmp a b > 0" for a b
    using that asym [of a b] asym [of b a]
    by (cases ord) (auto simp: compareRows_def Let_def split: if_splits)
  have "sorted_wrt (\<lambda>a b. ?cmp a b \<le> 0) (array_sort ?cmp (data p))"
  proof (rule sorted_array_sort [where A = ?D])
    show "?cmp a c \<le> 0"
      if "a \<in> ?D" "b \<in> ?D" "c \<in> ?D" "?cmp a b \<le> 0" "?cmp b c \<le> 0" for a b c
      using that by (rule tr)
    show "?cmp b a \<le> 0" if "a \<in> ?D" "b \<in> ?D" "?cmp a b > 0" for a b
      using that by (rule an)
    show "set (data p) \<subseteq> ?D" by simp
  qed
  then have "sorted_wrt (\<lambda>a b. ?cmp a b \<le> 0) (sortedData lt p st)"
    by (simp add: eq)
  moreover have "set (sortedData lt p st) = ?D"
    by (simp add: eq set_array_sort)
  ultimately show "sorted_wrt (before_ok lt k ord) (sortedData lt p st)"
    using le by (auto elim!: sorted_wrt_mono_rel [rotated])
  show "filter (\<lambda>x. \<not> lt (x k) (r k) \<and> \<not> lt (r k) (x k)) (sortedData lt p st)
      = filter (\<lambda>x. \<not> lt (x k) (r k) \<and> \<not> lt (r k) (x k)) (data p)" if r: "r \<in> ?D"
    unfolding eq
  proof (rule filter_array_sort)
    fix x y
    assume x: "x \<in> ?D" and y: "y \<in> ?D"
      and px: "\<not> lt (x k) (r k) \<and> \<not> lt (r k) (x k)"
      and py: "\<not> lt (y k) (r k) \<and> \<not> lt (r k) (y k)"
    from px py negtrans [OF x r y] negtrans [OF y r x]
    have "\<not> lt (x k) (y k)" "\<not> lt (y k) (x k)" by auto
    then show "?cmp x y \<le> 0"
      by (simp add: compareRows_def)
  qed
qed

text \<open>
  The comparison \<open>num_lt\<close> is such an order on every column without \<open>undefined\<close>.
\<close>

lemma sortedData_numbers:
  assumes "sortKey st = Some k" "truthy_key k" "sortOrder st = Some ord"
    and "list_all (\<lambda>r. r k \<noteq> None) (data p)"
  shows "mset (sortedData num_lt p st) = mset (data p)"
    and "sorted_wrt (before_ok num_lt k ord) (sortedData num_lt p st)"
    and "r \<in> set (data p) \<Longrightarrow>
         filter (\<lambda>x. x k = r k) (sortedData num_lt p st) = filter (\<lambda>x. x k = r k) (data p)"
proof -
  have some: "\<exists>v. a k = Some v" if "a \<in> set (data p)" for a
    using that assms(4) by (auto simp: list_all_iff)
  have asym: "\<not> num_lt (b k) (a k)" if "num_lt (a k) (b k)" for a b
    using that by (auto simp: num_lt_def split: option.splits)
  have negtrans: "\<not> num_lt (a k) (c k)"
    if "a \<in> set (data p)" "b \<in> set (data p)" "c \<in> set (data p)"
      "\<not> num_lt (a k) (b k)" "\<not> num_lt (b k) (c k)" for a b c
    using that some [of a] some [of b] some [of c] by (auto simp: num_lt_def)
  show "mset (sortedData num_lt p st) = mset (data p)"
    using assms(1-3) asym negtrans by (rule sortedData_truthy_key(1))
  show "sorted_wrt (before_ok num_lt k ord) (sortedData num_lt p st)"
    using assms(1-3) asym negtrans by (rule sortedData_truthy_key(2))
  assume r: "r \<in> set (data p)"
  have same: "(\<not> num_lt (x k) (r k) \<and> \<not> num_lt (r k) (x k)) = (x k = r k)"
    if "x \<in> set (data p)" for x
    using some [OF that] some [OF r] by (auto simp: num_lt_def)
  have "filter (\<lambda>x. \<not> num_lt (x k) (r k) \<and> \<not> num_lt (r k) (x k)) (sortedData num_lt p st)
      = filter (\<lambda>x. \<not> num_lt (x k) (r k) \<and> \<not> num_lt (r k) (x k)) (data p)"
    using assms(1-3) asym negtrans r by (rule sortedData_truthy_key(3))
  moreover have "set (sortedData num_lt p st) = set (data p)"
    using \<open>mset (sortedData num_lt p st) = mset (data p)\<close> by (metis set_mset_mset)
  ultimately show "filter (\<lambda>x. x k = r k) (sortedData num_lt p st)
      = filter (\<lambda>x. x k = r k) (data p)"
    using same by (metis (mono_tags, lifting) filter_cong)
qed

subsection \<open>A falsy sort key\<close>

text \<open>
  \<open>!sortKey\<close> is true for the keys \<open>0\<close> and \<open>""\<close> as well as for \<open>null\<close>: with such a
  key as the active sort column the displayed sequence is the data as supplied.
\<close>

lemma sortedData_falsy_key:
  "sortKey st = Some k \<Longrightarrow> \<not> truthy_key k \<Longrightarrow> sortedData lt p st = data p"
  by (simp add: sortedData_def split: option.splits)

text \<open>
  C2 at a falsy key. After one click on the header of the column with \<open>dataIndex: 0\<close>
  the sort state is (0, ascending) and the header shows the ascending chevron, yet the
  displayed rows are in the supplied order 2, 1 although 1 < 2. The same numbers
  under the key \<open>score\<close> are displayed as 1, 2, and as 2, 1 after a second click.
\<close>

theorem sortedData_falsy_key_unsorted:
  "sortKey (clickHeader zeroColumn (initial_state :: int option table_state)) = Some (NumKey 0)
   \<and> sortOrder (clickHeader zeroColumn (initial_state :: int option table_state)) = Some asc
   \<and> headerIcon zeroColumn (clickHeader zeroColumn (initial_state :: int option table_state))
       = ChevronUp
   \<and> map (\<lambda>r. r (NumKey 0))
       (sortedData num_lt
          (demoProps [obj [(NumKey 0, 2), (StrKey ''id'', 1)], obj [(NumKey 0, 1), (StrKey ''id'', 2)]])
          (clickHeader zeroColumn initial_state))
       = [Some 2, Some 1]
   \<and> num_lt (Some 1) (Some 2)
   \<and> map (\<lambda>r. r (StrKey ''score''))
       (sortedData num_lt
          (demoProps [obj [(StrKey ''score'', 2), (StrKey ''id'', 1)],
                      obj [(StrKey ''score'', 1), (StrKey ''id'', 2)]])
          (clickHeader scoreColumn initial_state))
       = [Some 1, Some 2]
   \<and> map (\<lambda>r. r (StrKey ''score''))
       (sortedData num_lt
          (demoProps [obj [(StrKey ''score'', 2), (StrKey ''id'', 1)],
                      obj [(StrKey ''score'', 1), (StrKey ''id'', 2)]])
          (clickHeader scoreColumn (clickHeader scoreColumn initial_state)))
       = [Some 2, Some 1]"
  by (simp add: clickHeader_def handleSort_def initial_state_def zeroColumn_def scoreColumn_def
      headerIcon_def sortedData_def demoProps_def obj_def num_lt_def array_sort_def
      compareRows_def Let_def)

section \<open>The host's array is never written\<close>

lemma new_array_frame:
  "take (length h) (snd (new_array xs h)) = h
   \<and> snd (new_array xs h) ! fst (new_array xs h) = xs
   \<and> fst (new_array xs h) = length h"
  by (simp add: new_array_def)

lemma sortedData_store_frame:
  "take (length h) (snd (sortedData_store lt dataRef sk so h)) = h"
  by (simp add: sortedData_store_def new_array_def sort_in_place_def
      split: option.splits)

lemma sortedData_store_contents:
  "dataRef < length h \<Longrightarrow>
   snd (sortedData_store lt dataRef sk so h) ! fst (sortedData_store lt dataRef sk so h)
     = sortedData lt (p\<lparr>data := h ! dataRef\<rparr>) (st\<lparr>sortKey := sk, sortOrder := so\<rparr>)"
  by (simp add: sortedData_store_def sortedData_def new_array_def sort_in_place_def
      split: option.splits)

lemma take_nth_same:
  "take n h' = h \<Longrightarrow> a < length h \<Longrightarrow> h' ! a = h ! a"
  by (metis length_take min_less_iff_conj nth_take)

text \<open>
  C6. Computing the displayed sequence leaves the host's array unchanged in every sort
  state: every array that existed before, the host's among them, has the same contents
  afterwards; when a sort takes place the sorted sequence is written to a fresh array,
  another one than the host's, and it holds the sorted rows. Row toggle and select-all
  likewise write only to a fresh array.
\<close>

theorem sortedData_leaves_data:
  assumes "dataRef < length h"
  shows "snd (sortedData_store lt dataRef sk so h) ! dataRef = h ! dataRef
    \<and> take (length h) (snd (sortedData_store lt dataRef sk so h)) = h
    \<and> snd (sortedData_store lt dataRef sk so h) ! fst (sortedData_store lt dataRef sk so h)
        = sortedData lt (p\<lparr>data := h ! dataRef\<rparr>) (st\<lparr>sortKey := sk, sortOrder := so\<rparr>)
    \<and> (sk = Some k \<and> truthy_key k \<and> so = Some ord \<longrightarrow>
          fst (sortedData_store lt dataRef sk so h) \<noteq> dataRef
          \<and> fst (sortedData_store lt dataRef sk so h) = length h)
    \<and> take (length h) (snd (handleSelectRow_store isNaN rk row prevRef h)) = h
    \<and> snd (handleSelectRow_store isNaN rk row prevRef h) ! dataRef = h ! dataRef
    \<and> snd (handleSelectRow_store isNaN rk row prevRef h) ! fst (handleSelectRow_store isNaN rk row prevRef h)
        = selectedRows (fst (handleSelectRow isNaN (p\<lparr>rowKey := rk\<rparr>) row
            (st\<lparr>selectedRows := h ! prevRef\<rparr>)))
    \<and> take (length h) (snd (handleSelectAll_store dataRef prevRef h)) = h
    \<and> snd (handleSelectAll_store dataRef prevRef h) ! dataRef = h ! dataRef
    \<and> snd (handleSelectAll_store dataRef prevRef h) ! fst (handleSelectAll_store dataRef prevRef h)
        = selectedRows (fst (handleSelectAll (p\<lparr>data := h ! dataRef\<rparr>)
            (st\<lparr>selectedRows := h ! prevRef\<rparr>)))"
proof -
  have s1: "take (length h) (snd (sortedData_store lt dataRef sk so h)) = h"
    by (rule sortedData_store_frame)
  have s2: "snd (sortedData_store lt dataRef sk so h) ! dataRef = h ! dataRef"
    using s1 assms(1) by (rule take_nth_same)
  have s3: "snd (sortedData_store lt dataRef sk so h) ! fst (sortedData_store lt dataRef sk so h)
      = sortedData lt (p\<lparr>data := h ! dataRef\<rparr>) (st\<lparr>sortKey := sk, sortOrder := so\<rparr>)"
    using assms(1) by (rule sortedData_store_contents)
  have s4: "fst (sortedData_store lt dataRef sk so h) \<noteq> dataRef
      \<and> fst (sortedData_store lt dataRef sk so h) = length h"
    if "sk = Some k \<and> truthy_key k \<and> so = Some ord"
    using that assms(1) by (simp add: sortedData_store_def new_array_def)
  have r1: "take (length h) (snd (handleSelectRow_store isNaN rk row prevRef h)) = h"
    by (simp add: handleSelectRow_store_def new_array_def Let_def)
  have r2: "snd (handleSelectRow_store isNaN rk row prevRef h) ! dataRef = h ! dataRef"
    using r1 assms(1) by (rule take_nth_same)
  have r3: "snd (handleSelectRow_store isNaN rk row prevRef h) ! fst (handleSelectRow_store isNaN rk row prevRef h)
      = selectedRows (fst (handleSelectRow isNaN (p\<lparr>rowKey := rk\<rparr>) row
          (st\<lparr>selectedRows := h ! prevRef\<rparr>)))"
    by (simp add: handleSelectRow_store_def handleSelectRow_def new_array_def Let_def)
  have a1: "take (length h) (snd (handleSelectAll_store dataRef prevRef h)) = h"
    by (simp add: handleSelectAll_store_def new_array_def)
  have a2: "snd (handleSelectAll_store dataRef prevRef h) ! dataRef = h ! dataRef"
    using a1 assms(1) by (rule take_nth_same)
  have a3: "snd (handleSelectAll_store dataRef prevRef h) ! fst (handleSelectAll_store dataRef prevRef h)
      = selectedRows (fst (handleSelectAll (p\<lparr>data := h ! dataRef\<rparr>)
          (st\<lparr>selectedRows := h ! prevRef\<rparr>)))"
    by (simp add: handleSelectAll_store_def handleSelectAll_def new_array_def Let_def)
  show ?thesis
    using s1 s2 s3 s4 r1 r2 r3 a1 a2 a3 by blast
qed

theorem sortedData_leaves_data_witness:
  "scores (snd (sortedData_store num_lt 0 (Some (StrKey ''score'')) (Some asc)
        [scoreRows [2, 1, 3], []]) ! 0) = [Some 2, Some 1, Some 3]
   \<and> fst (sortedData_store num_lt 0 (Some (StrKey ''score'')) (Some asc)
        [scoreRows [2, 1, 3], []]) = 2
   \<and> scores (snd (sortedData_store num_lt 0 (Some (StrKey ''score'')) (Some asc)
        [scoreRows [2, 1, 3], []])
      ! fst (sortedData_store num_lt 0 (Some (StrKey ''score'')) (Some asc)
        [scoreRows [2, 1, 3], []])) = [Some 1, Some 2, Some 3]
   \<and> scores (snd (handleSelectAll_store 0 1 [scoreRows [2, 1, 3], []]) ! 0)
      = [Some 2, Some 1, Some 3]
   \<and> scores (snd (handleSelectRow_store never_NaN (StrKey ''score'') (obj [(StrKey ''score'', 1)]) 1
        [scoreRows [2, 1, 3], []]) ! 0) = [Some 2, Some 1, Some 3]"
proof -
  let ?h = "[scoreRows [2, 1, 3], []]"
  let ?k = "StrKey ''score''"
  let ?r = "obj [(?k, 1 :: int)]"
  let ?p = "demoProps []"
  let ?st = "initial_state :: int option table_state"
  have d: "(0 :: nat) < length ?h"
    by simp
  note main = sortedData_leaves_data
    [OF d, of num_lt "Some ?k" "Some asc" ?p ?st ?k asc never_NaN ?k ?r 1]
  have active: "Some ?k = Some ?k \<and> truthy_key ?k \<and> Some asc = Some asc"
    by simp
  from main active have fresh: "fst (sortedData_store num_lt 0 (Some ?k) (Some asc) ?h) = length ?h"
    by blast
  from main have kept: "snd (sortedData_store num_lt 0 (Some ?k) (Some asc) ?h) ! 0 = ?h ! 0"
    and sorted: "snd (sortedData_store num_lt 0 (Some ?k) (Some asc) ?h)
        ! fst (sortedData_store num_lt 0 (Some ?k) (Some asc) ?h)
      = sortedData num_lt (?p\<lparr>data := ?h ! 0\<rparr>) (?st\<lparr>sortKey := Some ?k, sortOrder := Some asc\<rparr>)"
    and all: "snd (handleSelectAll_store 0 1 ?h) ! 0 = ?h ! 0"
    and row: "snd (handleSelectRow_store never_NaN ?k ?r 1 ?h) ! 0 = ?h ! 0"
    by blast+
  have one: "scores (sortedData num_lt (?p\<lparr>data := ?h ! 0\<rparr>)
      (?st\<lparr>sortKey := Some ?k, sortOrder := Some asc\<rparr>)) = [Some 1, Some 2, Some 3]"
    by (simp add: scores_def scoreRows_def obj_def sortedData_def array_sort_def
        compareRows_def num_lt_def Let_def)
  have two: "scores (?h ! 0) = [Some 2, Some 1, Some 3]"
    by (simp add: scores_def scoreRows_def obj_def)
  show ?thesis
    unfolding kept sorted all row one two using fresh by simp
qed

section \<open>The field widget: reveal and messages\<close>

text \<open>
  C8. For the type \<open>password\<close> and any value: while reveal is active the input has type
  \<open>text\<close>, while it is inactive it has type \<open>password\<close>; one click on the reveal button
  of a fresh field reveals, a second one masks again; and in every reveal state the input
  carries the value of the props unchanged.
\<close>

theorem reveal_keeps_value:
  "viewType (InputField (p\<lparr>inputType := ''password'', fieldValue := v\<rparr>)
       (st\<lparr>showPassword := True\<rparr>)) = ''text''
   \<and> viewType (InputField (p\<lparr>inputType := ''password'', fieldValue := v\<rparr>)
       (st\<lparr>showPassword := False\<rparr>)) = ''password''
   \<and> viewValue (InputField (p\<lparr>inputType := ''password'', fieldValue := v\<rparr>) st) = v
   \<and> showPassword (clickReveal (p\<lparr>inputType := ''password'', fieldValue := v\<rparr>) st)
       = (\<not> showPassword st)
   \<and> clickReveal (p\<lparr>inputType := ''password'', fieldValue := v\<rparr>)
       (clickReveal (p\<lparr>inputType := ''password'', fieldValue := v\<rparr>) st) = st
   \<and> viewType (InputField (p\<lparr>inputType := ''password'', fieldValue := v\<rparr>) initial_field)
       = ''password''
   \<and> viewType (InputField (p\<lparr>inputType := ''password'', fieldValue := v\<rparr>)
       (clickReveal (p\<lparr>inputType := ''password'', fieldValue := v\<rparr>) initial_field))
       = ''text''
   \<and> viewType (InputField (p\<lparr>inputType := ''password'', fieldValue := v\<rparr>)
       (clickReveal (p\<lparr>inputType := ''password'', fieldValue := v\<rparr>)
         (clickReveal (p\<lparr>inputType := ''password'', fieldValue := v\<rparr>) initial_field)))
       = ''password''
   \<and> viewValue (InputField (p\<lparr>inputType := ''password'', fieldValue := v\<rparr>)
       (clickReveal (p\<lparr>inputType := ''password'', fieldValue := v\<rparr>) initial_field)) = v
   \<and> viewValue (InputField (p\<lparr>inputType := ''password'', fieldValue := v\<rparr>)
       (clickReveal (p\<lparr>inputType := ''password'', fieldValue := v\<rparr>)
         (clickReveal (p\<lparr>inputType := ''password'', fieldValue := v\<rparr>) initial_field))) = v"
  by (simp add: InputField_def clickReveal_def initial_field_def Let_def)

text \<open>
  C9, as the claim states it, fails for an empty string: with \<open>invalid\<close> true and the
  error message \<open>""\<close> supplied, the helper text is shown, not the error message; and a
  helper text \<open>""\<close> shows no message at all.
\<close>

theorem empty_error_message_counterexample:
  "invalid (passwordField\<lparr>invalid := True, errorMessage := Some []\<rparr>)
   \<and> errorMessage (passwordField\<lparr>invalid := True, errorMessage := Some []\<rparr>) = Some []
   \<and> viewMessage (InputField (passwordField\<lparr>invalid := True, errorMessage := Some []\<rparr>)
        initial_field)
      = HelperText ''Your password must be at least 8 characters.''
   \<and> viewMessage (InputField (passwordField\<lparr>helperText := Some []\<rparr>) initial_field)
      = NoMessage"
  by (simp add: InputField_def messageBelow_def passwordField_def Let_def)

text \<open>
  C9, amended. If \<open>invalid\<close> is true and a non-empty error message is supplied, exactly
  the error message is shown below the input; otherwise, if a non-empty helper text is
  supplied, exactly the helper text is shown; otherwise no message is shown. An empty
  string counts as not supplied. The input is disabled exactly when the disabled flag or
  the loading flag is true, so a loading field is disabled whatever the disabled flag.
\<close>

theorem message_precedence:
  "(invalid p \<and> errorMessage p = Some e \<and> e \<noteq> [] \<longrightarrow>
      viewMessage (InputField p st) = ErrorMessage e)
   \<and> (\<not> (invalid p \<and> truthy_text (errorMessage p) \<noteq> None) \<and> helperText p = Some t \<and> t \<noteq> [] \<longrightarrow>
      viewMessage (InputField p st) = HelperText t)
   \<and> (\<not> (invalid p \<and> truthy_text (errorMessage p) \<noteq> None) \<and> truthy_text (helperText p) = None \<longrightarrow>
      viewMessage (InputField p st) = NoMessage)
   \<and> (truthy_text x = None \<longleftrightarrow> x = None \<or> x = Some [])
   \<and> viewDisabled (InputField p st) = (disabled p \<or> fieldLoading p)
   \<and> viewDisabled (InputField (p\<lparr>fieldLoading := True, disabled := d\<rparr>) st)
   \<and> spinner (InputField (p\<lparr>fieldLoading := True, disabled := d\<rparr>) st)"
proof -
  have "truthy_text x = None \<longleftrightarrow> x = None \<or> x = Some []"
    by (cases x) simp_all
  then show ?thesis
    by (auto simp: InputField_def messageBelow_def Let_def split: option.splits)
qed

theorem message_precedence_witness:
  "viewMessage (InputField (passwordField\<lparr>invalid := True,
        errorMessage := Some ''Please enter a valid email.''\<rparr>) initial_field)
      = ErrorMessage ''Please enter a valid email.''
   \<and> viewMessage (InputField (passwordField\<lparr>errorMessage := Some ''Please enter a valid email.''\<rparr>)
        initial_field)
      = HelperText ''Your password must be at least 8 characters.''
   \<and> viewMessage (InputField (passwordField\<lparr>invalid := True, helperText := None\<rparr>) initial_field)
      = NoMessage
   \<and> viewDisabled (InputField (passwordField\<lparr>fieldLoading := True\<rparr>) initial_field)"
proof -
  let ?e = "''Please enter a valid email.''"
  let ?t = "''Your password must be at least 8 characters.''"
  let ?p1 = "passwordField\<lparr>invalid := True, errorMessage := Some ?e\<rparr>"
  let ?p2 = "passwordField\<lparr>errorMessage := Some ?e\<rparr>"
  let ?p3 = "passwordField\<lparr>invalid := True, helperText := None\<rparr>"
  let ?p4 = "passwordField\<lparr>fieldLoading := True\<rparr>"
  have "invalid ?p1 \<and> errorMessage ?p1 = Some ?e \<and> ?e \<noteq> []"
    by (simp add: passwordField_def)
  with message_precedence [of ?p1 ?e initial_field ?t None False]
  have a: "viewMessage (InputField ?p1 initial_field) = ErrorMessage ?e"
    by blast
  have "\<not> (invalid ?p2 \<and> truthy_text (errorMessage ?p2) \<noteq> None) \<and> helperText ?p2 = Some ?t \<and> ?t \<noteq> []"
    by (simp add: passwordField_def)
  with message_precedence [of ?p2 ?e initial_field ?t None False]
  have b: "viewMessage (InputField ?p2 initial_field) = HelperText ?t"
    by blast
  have "\<not> (invalid ?p3 \<and> truthy_text (errorMessage ?p3) \<noteq> None) \<and> truthy_text (helperText ?p3) = None"
    by (simp add: passwordField_def)
  with message_precedence [of ?p3 ?e initial_field ?t None False]
  have c: "viewMessage (InputField ?p3 initial_field) = NoMessage"
    by blast
  from message_precedence [of passwordField ?e initial_field ?t None False]
  have d: "viewDisabled (InputField (passwordField\<lparr>fieldLoading := True, disabled := False\<rparr>) initial_field)"
    by blast
  have "passwordField\<lparr>fieldLoading := True, disabled := False\<rparr> = ?p4"
    by (simp add: passwordField_def)
  with d have d': "viewDisabled (InputField ?p4 initial_field)"
    by simp
  show ?thesis
    using a b c d' by simp
qed

end
